theory Spec2Isabelle
  imports Complex_Main
begin

section \<open>Numbers of the program\<close>

text \<open>
  The program computes on numpy float64 values: real numbers extended by the three
  special values of IEEE arithmetic, so that every operation that numpy answers with
  \<open>nan\<close> or \<open>inf\<close> instead of raising (the square root of a negative number, a division
  by zero) is a branch of the model. The operations \<open>np_add\<close>, \<open>np_mul\<close>, \<open>np_div\<close> and
  \<open>np_sqrt\<close> below give the exact result on the extended reals; the float64 operations
  of the next section round it. The sign of zero is not modelled.
\<close>

datatype npfloat = Fin real | PInf | NInf | NaN

fun np_neg :: "npfloat \<Rightarrow> npfloat" where
  "np_neg (Fin x) = Fin (- x)"
| "np_neg PInf = NInf"
| "np_neg NInf = PInf"
| "np_neg NaN = NaN"

fun np_add :: "npfloat \<Rightarrow> npfloat \<Rightarrow> npfloat" where
  "np_add NaN _ = NaN"
| "np_add _ NaN = NaN"
| "np_add (Fin x) (Fin y) = Fin (x + y)"
| "np_add PInf NInf = NaN"
| "np_add NInf PInf = NaN"
| "np_add PInf _ = PInf"
| "np_add _ PInf = PInf"
| "np_add NInf _ = NInf"
| "np_add _ NInf = NInf"

definition np_sub :: "npfloat \<Rightarrow> npfloat \<Rightarrow> npfloat" where
  "np_sub a b = np_add a (np_neg b)"

text \<open>The sign of a value: \<open>-1\<close>, \<open>0\<close> or \<open>1\<close>; only used on values that are not \<open>nan\<close>.\<close>

fun np_sign :: "npfloat \<Rightarrow> int" where
  "np_sign (Fin x) = (if x < 0 then - 1 else if x = 0 then 0 else 1)"
| "np_sign PInf = 1"
| "np_sign NInf = - 1"
| "np_sign NaN = 0"

definition signed_inf :: "int \<Rightarrow> npfloat" where
  "signed_inf s = (if s < 0 then NInf else if s = 0 then NaN else PInf)"

fun np_mul :: "npfloat \<Rightarrow> npfloat \<Rightarrow> npfloat" where
  "np_mul NaN _ = NaN"
| "np_mul _ NaN = NaN"
| "np_mul (Fin x) (Fin y) = Fin (x * y)"
| "np_mul a b = signed_inf (np_sign a * np_sign b)"

fun np_div :: "npfloat \<Rightarrow> npfloat \<Rightarrow> npfloat" where
  "np_div NaN _ = NaN"
| "np_div _ NaN = NaN"
| "np_div (Fin x) (Fin y) = (if y = 0 then signed_inf (np_sign (Fin x)) else Fin (x / y))"
| "np_div (Fin x) _ = Fin 0"
| "np_div a (Fin y) = signed_inf (np_sign a * (if y < 0 then - 1 else 1))"
| "np_div _ _ = NaN"

fun np_sqrt :: "npfloat \<Rightarrow> npfloat" where
  "np_sqrt (Fin x) = (if x < 0 then NaN else Fin (sqrt x))"
| "np_sqrt PInf = PInf"
| "np_sqrt NInf = NaN"
| "np_sqrt NaN = NaN"

fun np_cos :: "npfloat \<Rightarrow> npfloat" where
  "np_cos (Fin x) = Fin (cos x)"
| "np_cos _ = NaN"

fun np_sin :: "npfloat \<Rightarrow> npfloat" where
  "np_sin (Fin x) = Fin (sin x)"
| "np_sin _ = NaN"

fun np_le :: "npfloat \<Rightarrow> npfloat \<Rightarrow> bool" where
  "np_le NaN _ = False"
| "np_le _ NaN = False"
| "np_le NInf _ = True"
| "np_le _ PInf = True"
| "np_le (Fin x) (Fin y) = (x \<le> y)"
| "np_le _ _ = False"

text \<open>\<open>ndarray.min\<close> and \<open>ndarray.max\<close> propagate \<open>nan\<close>.\<close>

definition np_minimum :: "npfloat \<Rightarrow> npfloat \<Rightarrow> npfloat" where
  "np_minimum a b = (if a = NaN \<or> b = NaN then NaN else if np_le a b then a else b)"

definition np_maximum :: "npfloat \<Rightarrow> npfloat \<Rightarrow> npfloat" where
  "np_maximum a b = (if a = NaN \<or> b = NaN then NaN else if np_le a b then b else a)"

section \<open>Rounding to float64\<close>

text \<open>
  IEEE 754 binary64, round to nearest, ties to even. A value in the binade
  \<open>[2^E, 2^(E+1))\<close> is rounded to a multiple of \<open>2^(E - 52)\<close>; below \<open>2^(-1022)\<close> the grid
  is that of the subnormal numbers, \<open>2^(-1074)\<close>; a result of magnitude \<open>2^1024\<close> or more
  is an infinity.
\<close>

definition pow2 :: "int \<Rightarrow> real" where
  "pow2 k = (if 0 \<le> k then 2 ^ nat k else 1 / 2 ^ nat (- k))"

definition round_half_even :: "real \<Rightarrow> int" where
  "round_half_even q =
     (let f = \<lfloor>q\<rfloor> in
      if q - of_int f < 1 / 2 then f
      else if 1 / 2 < q - of_int f then f + 1
      else if even f then f else f + 1)"

definition ulp_exponent :: "real \<Rightarrow> int" where
  "ulp_exponent x = max \<lfloor>log 2 \<bar>x\<bar>\<rfloor> (- 1022) - 52"

definition round_real :: "real \<Rightarrow> real" where
  "round_real x =
     (if x = 0 then 0
      else of_int (round_half_even (x / pow2 (ulp_exponent x))) * pow2 (ulp_exponent x))"

definition round64 :: "real \<Rightarrow> npfloat" where
  "round64 x =
     (let r = round_real x in
      if 2 ^ 1024 \<le> \<bar>r\<bar> then (if 0 < r then PInf else NInf) else Fin r)"

text \<open>A real number is a float64 value when rounding leaves it as it is.\<close>

definition is_float64 :: "real \<Rightarrow> bool" where
  "is_float64 x \<longleftrightarrow> round64 x = Fin x"

fun rnd :: "npfloat \<Rightarrow> npfloat" where
  "rnd (Fin x) = round64 x"
| "rnd PInf = PInf"
| "rnd NInf = NInf"
| "rnd NaN = NaN"

text \<open>
  The float64 operations of numpy and of Python floats: the exact result, rounded.
  \<open>np.sqrt\<close> is correctly rounded like the four arithmetic operations.
\<close>

definition f64_sqrt :: "npfloat \<Rightarrow> npfloat" where
  "f64_sqrt a = rnd (np_sqrt a)"

definition f64_add :: "npfloat \<Rightarrow> npfloat \<Rightarrow> npfloat" where
  "f64_add a b = rnd (np_add a b)"

definition f64_sub :: "npfloat \<Rightarrow> npfloat \<Rightarrow> npfloat" where
  "f64_sub a b = rnd (np_sub a b)"

definition f64_mul :: "npfloat \<Rightarrow> npfloat \<Rightarrow> npfloat" where
  "f64_mul a b = rnd (np_mul a b)"

definition f64_div :: "npfloat \<Rightarrow> npfloat \<Rightarrow> npfloat" where
  "f64_div a b = rnd (np_div a b)"

text \<open>
  The exceptions of the program. \<open>BoundaryException\<close> is the plain \<open>Exception\<close> that
  \<open>fetch_vietnam_boundary\<close> raises in its last line; \<open>ReadError\<close> stands for whatever
  \<open>geopandas.read_file\<close> raises on a file it cannot parse.
\<close>

datatype error =
  ValueError | IndexError | AttributeError | ZeroDivisionError | ReadError | BoundaryException

text \<open>
  The reductions raise \<open>ValueError\<close> on an array of size zero (``zero-size array to
  reduction operation minimum which has no identity'').
\<close>

fun array_min :: "npfloat list \<Rightarrow> error + npfloat" where
  "array_min [] = Inl ValueError"
| "array_min (x # xs) = Inr (fold (\<lambda>y acc. np_minimum acc y) xs x)"

fun array_max :: "npfloat list \<Rightarrow> error + npfloat" where
  "array_max [] = Inl ValueError"
| "array_max (x # xs) = Inr (fold (\<lambda>y acc. np_maximum acc y) xs x)"

text \<open>
  Indexing an array by an integer, as numpy does: a negative index counts from the end,
  and an index outside \<open>-n .. n - 1\<close> raises \<open>IndexError\<close>.
\<close>

definition array_get :: "'a list \<Rightarrow> int \<Rightarrow> error + 'a" where
  "array_get xs i =
     (let n = int (length xs) in
      if 0 \<le> i \<and> i < n then Inr (xs ! nat i)
      else if - n \<le> i \<and> i < 0 then Inr (xs ! nat (n + i))
      else Inl IndexError)"

section \<open>Marker sizes\<close>

text \<open>
  \<open>calculate_star_sizes(areas, min_size=80, max_size=1000)\<close>: the square roots, their
  minimum and maximum, the normalisation and the interpolation, in the order of the
  source, every operation in float64. There is no check of the arguments and no test of
  \<open>max_sqrt - min_sqrt\<close>.
\<close>

definition calculate_star_sizes :: "npfloat list \<Rightarrow> npfloat \<Rightarrow> npfloat \<Rightarrow> error + npfloat list" where
  "calculate_star_sizes areas min_size max_size =
     (let sqrt_areas = map f64_sqrt areas in
      case array_min sqrt_areas of
        Inl e \<Rightarrow> Inl e
      | Inr min_sqrt \<Rightarrow>
          (case array_max sqrt_areas of
             Inl e \<Rightarrow> Inl e
           | Inr max_sqrt \<Rightarrow>
               (let normalized =
                      map (\<lambda>s. f64_div (f64_sub s min_sqrt) (f64_sub max_sqrt min_sqrt)) sqrt_areas;
                    sizes =
                      map (\<lambda>n. f64_add min_size (f64_mul n (f64_sub max_size min_size))) normalized
                in Inr sizes)))"

text \<open>
  The \<open>area_km2\<close> column of the sample table in \<open>fetch_wdpa_vietnam\<close> (25 rows, in the
  order of the source).
\<close>

definition area_km2 :: "real list" where
  "area_km2 =
     [100, 720, 857, 222, 368, 108, 155, 298, 1156, 650, 76, 314, 75, 82,
      410, 757, 220, 295, 589, 71, 552, 166, 912, 260, 185]"

section \<open>Star glyphs\<close>

text \<open>
  What one call of \<open>ax.scatter\<close> adds to the axes: a collection with one marker per
  offset. The fields are the arguments the source passes; \<open>c_linewidths\<close> is \<open>None\<close>
  where the call does not give \<open>linewidths\<close>. The type \<open>'c\<close> is that of the colours the
  colormap returns.
\<close>

datatype marker = Star | Circle

datatype 'c colorspec = Colors "'c list" | ColorName string

datatype edgecolor = EdgeNone | EdgeHex string

record 'c collection =
  c_offsets :: "(npfloat \<times> npfloat) list"
  c_s :: "npfloat list"
  c_c :: "'c colorspec"
  c_marker :: marker
  c_edgecolors :: edgecolor
  c_linewidths :: "real option"
  c_alpha :: real
  c_zorder :: int

text \<open>
  One row of the frame as the drawing code sees it: its index label, \<open>row.geometry.x\<close>,
  \<open>row.geometry.y\<close>, and the entries of \<open>star_sizes\<close> and \<open>colors\<close> at the row's
  position. The arrays of the source have one entry per row of \<open>gdf_pa\<close>, so they are kept
  together as one list of records; \<open>star_sizes\<close> is then \<open>map gsize\<close> of the list.
\<close>

record 'c glyph =
  glabel :: int
  gx :: npfloat
  gy :: npfloat
  gsize :: npfloat
  gcolor :: 'c

text \<open>
  The body of the inner loop \<open>for i in range(5)\<close>: one sparkle at a star tip of the
  point \<open>(x, y)\<close>, for the value \<open>sz\<close> of \<open>size\<close> that the outer loop has read. The sizes and
  positions handed to \<open>ax.scatter\<close> are given here and in \<open>plot_stars\<close> as exact
  expressions, without the rounding of each product.
\<close>

definition sparkle :: "npfloat \<Rightarrow> npfloat \<Rightarrow> npfloat \<Rightarrow> nat \<Rightarrow> 'c collection" where
  "sparkle x y sz i =
     (let tip_radius = np_mul (np_sqrt (np_div sz (Fin pi))) (Fin 0.6);
          angle = Fin (real i * 2 * pi / 5 + pi / 2);
          tip_x = np_add x (np_mul tip_radius (np_cos angle));
          tip_y = np_add y (np_mul tip_radius (np_sin angle))
      in \<lparr>c_offsets = [(tip_x, tip_y)], c_s = [np_mul sz (Fin 0.08)],
          c_c = ColorName ''white'', c_marker = Circle, c_edgecolors = EdgeNone,
          c_linewidths = None, c_alpha = 0.7, c_zorder = 12\<rparr>)"

text \<open>
  The loop \<open>for idx, row in gdf_pa.iterrows()\<close>: \<open>idx\<close> is the index label of the row, and
  \<open>size = star_sizes[idx]\<close> indexes the array by that label, not by the row's position.
\<close>

fun sparkle_loop :: "npfloat list \<Rightarrow> 'c glyph list \<Rightarrow> error + 'c collection list" where
  "sparkle_loop star_sizes [] = Inr []"
| "sparkle_loop star_sizes (row # rows) =
     (case array_get star_sizes (glabel row) of
        Inl e \<Rightarrow> Inl e
      | Inr sz \<Rightarrow>
          (case sparkle_loop star_sizes rows of
             Inl e \<Rightarrow> Inl e
           | Inr rest \<Rightarrow> Inr (map (sparkle (gx row) (gy row) sz) [0..<5] @ rest)))"

text \<open>
  The star drawing of \<open>create_visualization\<close> (the four \<open>ax.scatter\<close> calls over all
  points, then the loop over the rows with its five sparkles each), as the list of the
  collections in the order the calls are made. An exception of the loop leaves the
  function, so the result is then the exception.
\<close>

definition plot_stars :: "'c glyph list \<Rightarrow> error + 'c collection list" where
  "plot_stars gs =
     (let star_sizes = map gsize gs;
          stars =
            [\<lparr>c_offsets = map (\<lambda>g. (gx g, gy g)) gs,
              c_s = map (\<lambda>s. np_mul s (Fin 2.5)) star_sizes,
              c_c = Colors (map gcolor gs), c_marker = Star, c_edgecolors = EdgeNone,
              c_linewidths = Some 0, c_alpha = 0.15, c_zorder = 8\<rparr>,
             \<lparr>c_offsets = map (\<lambda>g. (gx g, gy g)) gs,
              c_s = map (\<lambda>s. np_mul s (Fin 1.8)) star_sizes,
              c_c = Colors (map gcolor gs), c_marker = Star, c_edgecolors = EdgeNone,
              c_linewidths = Some 0, c_alpha = 0.25, c_zorder = 9\<rparr>,
             \<lparr>c_offsets = map (\<lambda>g. (gx g, gy g)) gs,
              c_s = map (\<lambda>s. np_mul s (Fin 1.3)) star_sizes,
              c_c = ColorName ''white'', c_marker = Star, c_edgecolors = EdgeNone,
              c_linewidths = Some 0, c_alpha = 0.35, c_zorder = 10\<rparr>,
             \<lparr>c_offsets = map (\<lambda>g. (gx g, gy g)) gs,
              c_s = star_sizes,
              c_c = Colors (map gcolor gs), c_marker = Star,
              c_edgecolors = EdgeHex ''#34495e'',
              c_linewidths = Some 1.2, c_alpha = 0.95, c_zorder = 11\<rparr>]
      in case sparkle_loop star_sizes gs of
           Inl e \<Rightarrow> Inl e
         | Inr sparkles \<Rightarrow> Inr (stars @ sparkles))"

text \<open>
  One row of \<open>gdf_pa\<close>: its index label, the point geometry and the area. The names and
  the label drawing are not modelled.
\<close>

record pa_row =
  index_label :: int
  geometry_x :: npfloat
  geometry_y :: npfloat
  row_area_km2 :: npfloat

text \<open>
  \<open>create_visualization\<close>, reduced to what reaches the star glyphs. The decorative
  background \<open>create_soft_watercolor_tree\<close> is the only code that seeds and reads numpy's
  global generator; it is the parameter \<open>tree\<close>, any function from the generator's state
  to the patches it draws and the state it leaves. \<open>colormap\<close> stands for
  \<open>plt.cm.YlOrRd(norm(...))\<close>: the colour of a value, given the whole column. The boundary
  plot, the labels, the title and the axis set-up add no glyph and are left out.
\<close>

definition create_visualization ::
  "('g \<Rightarrow> 'p list \<times> 'g) \<Rightarrow> (npfloat list \<Rightarrow> npfloat \<Rightarrow> 'c) \<Rightarrow> 'g \<Rightarrow> pa_row list
     \<Rightarrow> error + ('p list \<times> 'c collection list) \<times> 'g" where
  "create_visualization tree colormap rng gdf_pa =
     (case tree rng of (patches, rng') \<Rightarrow>
        (case calculate_star_sizes (map row_area_km2 gdf_pa) (Fin 80) (Fin 1000) of
           Inl e \<Rightarrow> Inl e
         | Inr star_sizes \<Rightarrow>
             (let colors = map (colormap (map row_area_km2 gdf_pa)) (map row_area_km2 gdf_pa);
                  gs = map (\<lambda>(row, size, color).
                              \<lparr>glabel = index_label row,
                               gx = geometry_x row, gy = geometry_y row,
                               gsize = size, gcolor = color\<rparr>)
                           (zip gdf_pa (zip star_sizes colors))
              in case plot_stars gs of
                   Inl e \<Rightarrow> Inl e
                 | Inr cols \<Rightarrow> Inr ((patches, cols), rng'))))"

text \<open>The stars of a run, whatever else it returns.\<close>

definition stars_of ::
  "error + ('p list \<times> 'c collection list) \<times> 'g \<Rightarrow> error + 'c collection list" where
  "stars_of r = (case r of Inl e \<Rightarrow> Inl e | Inr ((patches, cols), rng) \<Rightarrow> Inr cols)"

section \<open>The boundary file\<close>

text \<open>
  A geometry as the counting code distinguishes it: a polygon with the coordinates of its
  exterior ring, a multipolygon with those of each part, or any other geometry, which has
  no \<open>exterior\<close>. A GeoDataFrame is the list of its geometries.
\<close>

datatype geometry =
  Polygon "(real \<times> real) list" | MultiPolygon "(real \<times> real) list list" | OtherGeometry

text \<open>
  The two coordinate counts: \<open>gdf.geometry.iloc[0]\<close> raises \<open>IndexError\<close> on a frame
  without rows, and \<open>.exterior\<close> raises \<open>AttributeError\<close> on a geometry that is neither a
  polygon nor a multipolygon.
\<close>

fun count_coords :: "geometry list \<Rightarrow> error + nat" where
  "count_coords [] = Inl IndexError"
| "count_coords (MultiPolygon polys # _) = Inr (sum_list (map length polys))"
| "count_coords (Polygon exterior # _) = Inr (length exterior)"
| "count_coords (OtherGeometry # _) = Inl AttributeError"

text \<open>
  The body of the \<open>try\<close> once the file is known to exist. \<open>read_file\<close> is
  \<open>geopandas.read_file\<close> and \<open>simplify\<close> is shapely's
  \<open>simplify(tolerance=0.03, preserve_topology=True)\<close>; both are parameters. The division
  \<open>simplified_coords/total_coords\<close> is one of Python integers and raises on zero. The
  printing is not modelled.
\<close>

definition load_boundary ::
  "(string \<Rightarrow> error + geometry list) \<Rightarrow> (geometry \<Rightarrow> geometry) \<Rightarrow> string
     \<Rightarrow> error + geometry list" where
  "load_boundary read_file simplify gadm_file =
     (case read_file gadm_file of
        Inl e \<Rightarrow> Inl e
      | Inr gdf \<Rightarrow>
          (case count_coords gdf of
             Inl e \<Rightarrow> Inl e
           | Inr total_coords \<Rightarrow>
               (let gdf' = map simplify gdf in
                case count_coords gdf' of
                  Inl e \<Rightarrow> Inl e
                | Inr simplified_coords \<Rightarrow>
                    if total_coords = 0 then Inl ZeroDivisionError else Inr gdf')))"

text \<open>
  \<open>fetch_vietnam_boundary(gadm_file)\<close>: \<open>exists\<close> is \<open>os.path.exists\<close>. Every exception
  of the \<open>try\<close> body is caught and printed, and control then reaches the final
  \<open>raise\<close>, as it does when the file does not exist.
\<close>

definition fetch_vietnam_boundary ::
  "(string \<Rightarrow> bool) \<Rightarrow> (string \<Rightarrow> error + geometry list) \<Rightarrow> (geometry \<Rightarrow> geometry)
     \<Rightarrow> string \<Rightarrow> error + geometry list" where
  "fetch_vietnam_boundary exists read_file simplify gadm_file =
     (if exists gadm_file then
        (case load_boundary read_file simplify gadm_file of
           Inr gdf \<Rightarrow> Inr gdf
         | Inl e \<Rightarrow> Inl BoundaryException)
      else Inl BoundaryException)"

section \<open>Properties of the rounding\<close>

lemma pow2_powr: "pow2 k = 2 powr of_int k"
  by (simp add: pow2_def powr_real_of_int field_simps)

lemma pow2_pos [simp]: "0 < pow2 k"
  by (simp add: pow2_powr)

lemma pow2_nonzero [simp]: "pow2 k \<noteq> 0"
  using pow2_pos [of k] by linarith

lemma pow2_nonneg [simp]: "0 \<le> pow2 k"
  using pow2_pos [of k] by linarith

lemma abs_pow2 [simp]: "\<bar>pow2 k\<bar> = pow2 k"
  by simp

lemma pow2_add: "pow2 (a + b) = pow2 a * pow2 b"
  by (simp add: pow2_powr powr_add)

lemma pow2_diff: "pow2 (a - b) = pow2 a / pow2 b"
  by (simp add: pow2_powr powr_diff)

lemma pow2_le_iff [simp]: "pow2 a \<le> pow2 b \<longleftrightarrow> a \<le> b"
  by (simp add: pow2_powr)

lemma pow2_less_iff [simp]: "pow2 a < pow2 b \<longleftrightarrow> a < b"
  by (simp add: pow2_powr)

lemma pow2_zero [simp]: "pow2 0 = 1"
  by (simp add: pow2_def)

lemma pow2_52: "pow2 52 = 2 ^ 52" and pow2_53: "pow2 53 = 2 ^ 53"
  by (simp_all add: pow2_def)

lemma pow2_nat: "pow2 (int n) = 2 ^ n"
  by (simp add: pow2_def)

lemma round_half_even_close:
  "of_int (round_half_even q) - 1 / 2 \<le> q" "q \<le> of_int (round_half_even q) + 1 / 2"
proof -
  have "of_int \<lfloor>q\<rfloor> \<le> q" "q < of_int \<lfloor>q\<rfloor> + 1" by linarith+
  then show "of_int (round_half_even q) - 1 / 2 \<le> q" "q \<le> of_int (round_half_even q) + 1 / 2"
    unfolding round_half_even_def Let_def
    by (simp_all split: if_splits; linarith)+
qed

lemma round_half_even_near:
  assumes "\<bar>q - of_int n\<bar> < 1 / 2"
  shows "round_half_even q = n"
proof -
  have "\<bar>(of_int (round_half_even q) :: real) - of_int n\<bar> < 1"
    using round_half_even_close [of q] assms by linarith
  then have "\<bar>round_half_even q - n\<bar> < 1"
    by (metis of_int_abs of_int_diff of_int_less_1_iff)
  then show ?thesis by simp
qed

lemma round_half_even_of_int [simp]: "round_half_even (of_int n) = n"
  by (rule round_half_even_near) simp

lemma round_half_even_mono:
  assumes "q \<le> q'"
  shows "round_half_even q \<le> round_half_even q'"
proof (rule ccontr)
  assume "\<not> round_half_even q \<le> round_half_even q'"
  then have "round_half_even q' + 1 \<le> round_half_even q" by simp
  then have "(of_int (round_half_even q') :: real) + 1 \<le> of_int (round_half_even q)"
    by (metis of_int_1 of_int_add of_int_le_iff)
  with round_half_even_close(1) [of q] round_half_even_close(2) [of q'] assms
  have "q = q'" by linarith
  with \<open>\<not> round_half_even q \<le> round_half_even q'\<close> show False by simp
qed

lemma round_half_even_ge: "of_int n \<le> q \<Longrightarrow> n \<le> round_half_even q"
  using round_half_even_mono [of "of_int n" q] by simp

lemma round_half_even_le: "q \<le> of_int n \<Longrightarrow> round_half_even q \<le> n"
  using round_half_even_mono [of q "of_int n"] by simp

lemma round_half_even_minus: "round_half_even (- q) = - round_half_even q"
proof (cases "q = of_int \<lfloor>q\<rfloor>")
  case True
  then obtain n where "q = of_int n" ..
  then have "- q = of_int (- n)" by simp
  then show ?thesis unfolding \<open>q = of_int n\<close> by (metis round_half_even_of_int)
next
  case False
  define f where "f = \<lfloor>q\<rfloor>"
  have lt: "of_int f < q" "q < of_int f + 1"
    using False unfolding f_def by linarith+
  have fl: "\<lfloor>- q\<rfloor> = - f - 1"
    using lt by (intro floor_unique) simp_all
  consider "q - of_int f < 1 / 2" | "1 / 2 < q - of_int f" | "q - of_int f = 1 / 2"
    by linarith
  then show ?thesis
  proof cases
    case 1
    then show ?thesis
      unfolding round_half_even_def Let_def fl f_def [symmetric] by simp
  next
    case 2
    then show ?thesis
      unfolding round_half_even_def Let_def fl f_def [symmetric] by simp
  next
    case 3
    then show ?thesis
      unfolding round_half_even_def Let_def fl f_def [symmetric] by simp
  qed
qed

lemma floor_log2_bounds:
  assumes "x \<noteq> 0"
  shows "pow2 \<lfloor>log 2 \<bar>x\<bar>\<rfloor> \<le> \<bar>x\<bar>" "\<bar>x\<bar> < pow2 (\<lfloor>log 2 \<bar>x\<bar>\<rfloor> + 1)"
proof -
  have "0 < \<bar>x\<bar>" using assms by simp
  then have "2 powr of_int \<lfloor>log 2 \<bar>x\<bar>\<rfloor> \<le> \<bar>x\<bar> \<and> \<bar>x\<bar> < 2 powr of_int (\<lfloor>log 2 \<bar>x\<bar>\<rfloor> + 1)"
    using floor_log_eq_powr_iff [of "\<bar>x\<bar>" 2 "\<lfloor>log 2 \<bar>x\<bar>\<rfloor>"] by simp
  then show "pow2 \<lfloor>log 2 \<bar>x\<bar>\<rfloor> \<le> \<bar>x\<bar>" "\<bar>x\<bar> < pow2 (\<lfloor>log 2 \<bar>x\<bar>\<rfloor> + 1)"
    by (simp_all add: pow2_powr)
qed

lemma floor_log2_eq:
  assumes "pow2 k \<le> \<bar>x\<bar>" and "\<bar>x\<bar> < pow2 (k + 1)"
  shows "\<lfloor>log 2 \<bar>x\<bar>\<rfloor> = k"
proof -
  have "0 < \<bar>x\<bar>" using assms(1) pow2_pos [of k] by linarith
  then show ?thesis
    using floor_log_eq_powr_iff [of "\<bar>x\<bar>" 2 k] assms by (simp add: pow2_powr)
qed

lemma floor_log2_mono:
  assumes "x \<noteq> 0" and "\<bar>x\<bar> \<le> \<bar>y\<bar>"
  shows "\<lfloor>log 2 \<bar>x\<bar>\<rfloor> \<le> \<lfloor>log 2 \<bar>y\<bar>\<rfloor>"
proof -
  have "0 < \<bar>x\<bar>" using assms(1) by simp
  then have "log 2 \<bar>x\<bar> \<le> log 2 \<bar>y\<bar>" using assms(2) by simp
  then show ?thesis by (rule floor_mono)
qed

lemma ulp_exponent_mono:
  "x \<noteq> 0 \<Longrightarrow> \<bar>x\<bar> \<le> \<bar>y\<bar> \<Longrightarrow> ulp_exponent x \<le> ulp_exponent y"
  unfolding ulp_exponent_def using floor_log2_mono [of x y] by simp

lemma ulp_exponent_ge: "- 1074 \<le> ulp_exponent x"
  by (simp add: ulp_exponent_def)

text \<open>The scaled value lies below \<open>2^53\<close> in magnitude, and at least at \<open>2^52\<close> in the normal range.\<close>

lemma abs_less_ulp:
  assumes "x \<noteq> 0"
  shows "\<bar>x\<bar> < pow2 (ulp_exponent x + 53)"
proof -
  have "\<bar>x\<bar> < pow2 (\<lfloor>log 2 \<bar>x\<bar>\<rfloor> + 1)" by (rule floor_log2_bounds [OF assms])
  also have "\<dots> \<le> pow2 (ulp_exponent x + 53)" by (simp add: ulp_exponent_def)
  finally show ?thesis .
qed

lemma abs_ge_ulp:
  assumes "x \<noteq> 0" and "- 1074 < ulp_exponent x"
  shows "pow2 (ulp_exponent x + 52) \<le> \<bar>x\<bar>"
proof -
  have "ulp_exponent x + 52 = \<lfloor>log 2 \<bar>x\<bar>\<rfloor>"
    using assms(2) by (simp add: ulp_exponent_def max_def split: if_splits)
  then show ?thesis using floor_log2_bounds(1) [OF assms(1)] by simp
qed

lemma scaled_less:
  assumes "x \<noteq> 0"
  shows "\<bar>x / pow2 (ulp_exponent x)\<bar> < 2 ^ 53"
proof -
  have "\<bar>x\<bar> < pow2 (ulp_exponent x) * pow2 53"
    using abs_less_ulp [OF assms] by (simp add: pow2_add)
  then have "\<bar>x\<bar> / pow2 (ulp_exponent x) < pow2 53"
    by (simp add: pos_divide_less_eq mult.commute)
  then show ?thesis by (simp add: pow2_53)
qed

lemma scaled_ge:
  assumes "x \<noteq> 0" and "- 1074 < ulp_exponent x"
  shows "2 ^ 52 \<le> \<bar>x / pow2 (ulp_exponent x)\<bar>"
proof -
  have "pow2 (ulp_exponent x) * pow2 52 \<le> \<bar>x\<bar>"
    using abs_ge_ulp [OF assms] by (simp add: pow2_add)
  then have "pow2 52 \<le> \<bar>x\<bar> / pow2 (ulp_exponent x)"
    by (simp add: pos_le_divide_eq mult.commute)
  then show ?thesis by (simp add: pow2_52)
qed

lemma round_real_zero [simp]: "round_real 0 = 0"
  by (simp add: round_real_def)

lemma ulp_exponent_minus [simp]: "ulp_exponent (- x) = ulp_exponent x"
  by (simp add: ulp_exponent_def)

lemma round_real_minus: "round_real (- x) = - round_real x"
  by (simp add: round_real_def round_half_even_minus)

lemma round_real_nonneg:
  assumes "0 \<le> x"
  shows "0 \<le> round_real x"
proof (cases "x = 0")
  case False
  have "0 \<le> x / pow2 (ulp_exponent x)" using assms by (intro divide_nonneg_pos) simp_all
  then have "0 \<le> round_half_even (x / pow2 (ulp_exponent x))"
    using round_half_even_ge [of 0] by simp
  then show ?thesis using False by (simp add: round_real_def)
qed simp

lemma round_real_upper:
  assumes "0 < x"
  shows "round_real x \<le> pow2 (ulp_exponent x + 53)"
proof -
  have "x / pow2 (ulp_exponent x) \<le> of_int (2 ^ 53)"
    using scaled_less [of x] assms by simp
  then have "round_half_even (x / pow2 (ulp_exponent x)) \<le> 2 ^ 53"
    by (rule round_half_even_le)
  then have "(of_int (round_half_even (x / pow2 (ulp_exponent x))) :: real) \<le> of_int (2 ^ 53)"
    by (simp only: of_int_le_iff)
  then have "of_int (round_half_even (x / pow2 (ulp_exponent x))) * pow2 (ulp_exponent x)
               \<le> 2 ^ 53 * pow2 (ulp_exponent x)"
    by (intro mult_right_mono) simp_all
  then show ?thesis using assms by (simp add: round_real_def pow2_add pow2_53 mult.commute)
qed

lemma round_real_lower:
  assumes "0 < x" and "- 1074 < ulp_exponent x"
  shows "pow2 (ulp_exponent x + 52) \<le> round_real x"
proof -
  have "of_int (2 ^ 52) \<le> x / pow2 (ulp_exponent x)"
    using scaled_ge [of x] assms by simp
  then have "2 ^ 52 \<le> round_half_even (x / pow2 (ulp_exponent x))"
    by (rule round_half_even_ge)
  then have "(of_int (2 ^ 52) :: real) \<le> of_int (round_half_even (x / pow2 (ulp_exponent x)))"
    by (simp only: of_int_le_iff)
  then have "2 ^ 52 * pow2 (ulp_exponent x)
               \<le> of_int (round_half_even (x / pow2 (ulp_exponent x))) * pow2 (ulp_exponent x)"
    by (intro mult_right_mono) simp_all
  then show ?thesis using assms by (simp add: round_real_def pow2_add pow2_52 mult.commute)
qed

lemma round_real_mono_pos:
  assumes "0 < x" and "x \<le> y"
  shows "round_real x \<le> round_real y"
proof -
  have y: "0 < y" using assms by simp
  have le: "ulp_exponent x \<le> ulp_exponent y"
    using assms by (intro ulp_exponent_mono) simp_all
  show ?thesis
  proof (cases "ulp_exponent x = ulp_exponent y")
    case True
    have "x / pow2 (ulp_exponent y) \<le> y / pow2 (ulp_exponent y)"
      using assms(2) by (intro divide_right_mono) simp_all
    then have "round_half_even (x / pow2 (ulp_exponent y)) \<le> round_half_even (y / pow2 (ulp_exponent y))"
      by (rule round_half_even_mono)
    then have "(of_int (round_half_even (x / pow2 (ulp_exponent y))) :: real)
                 \<le> of_int (round_half_even (y / pow2 (ulp_exponent y)))"
      by (simp only: of_int_le_iff)
    then show ?thesis
      using assms(1) y True by (simp add: round_real_def)
  next
    case False
    with le have lt: "ulp_exponent x + 53 \<le> ulp_exponent y + 52" by simp
    have "- 1074 < ulp_exponent y" using ulp_exponent_ge [of x] le False by simp
    then have "pow2 (ulp_exponent y + 52) \<le> round_real y"
      using round_real_lower [OF y] by simp
    moreover have "round_real x \<le> pow2 (ulp_exponent x + 53)"
      by (rule round_real_upper [OF assms(1)])
    moreover have "pow2 (ulp_exponent x + 53) \<le> pow2 (ulp_exponent y + 52)"
      using lt by simp
    ultimately show ?thesis by linarith
  qed
qed

lemma round_real_mono:
  assumes "x \<le> y"
  shows "round_real x \<le> round_real y"
proof -
  consider "0 < x" | "x \<le> 0" "0 \<le> y" | "y < 0" by linarith
  then show ?thesis
  proof cases
    case 1
    then show ?thesis using assms by (rule round_real_mono_pos)
  next
    case 2
    have "round_real x \<le> 0"
      using round_real_nonneg [of "- x"] 2(1) by (simp add: round_real_minus)
    moreover have "0 \<le> round_real y" using 2(2) by (rule round_real_nonneg)
    ultimately show ?thesis by simp
  next
    case 3
    then have "round_real (- y) \<le> round_real (- x)"
      using assms by (intro round_real_mono_pos) simp_all
    then show ?thesis by (simp add: round_real_minus)
  qed
qed

text \<open>Values on the grid of their own binade are left alone.\<close>

lemma round_real_fixed:
  assumes "x = of_int n * pow2 k" and "ulp_exponent x \<le> k"
  shows "round_real x = x"
proof (cases "x = 0")
  case False
  define e where "e = ulp_exponent x"
  have "pow2 k = pow2 (k - e) * pow2 e" by (simp flip: pow2_add)
  moreover have "pow2 (k - e) = of_int (2 ^ nat (k - e))"
    using assms(2) by (simp add: pow2_def e_def)
  ultimately have "x / pow2 e = of_int (n * 2 ^ nat (k - e))"
    using assms(1) by simp
  then have "round_half_even (x / pow2 e) = n * 2 ^ nat (k - e)"
    by (simp only: round_half_even_of_int)
  then have "of_int (round_half_even (x / pow2 e)) * pow2 e = x / pow2 e * pow2 e"
    using \<open>x / pow2 e = of_int (n * 2 ^ nat (k - e))\<close> by simp
  then show ?thesis using False by (simp add: round_real_def e_def)
qed simp

lemma round_real_grid: "\<exists>n. round_real x = of_int n * pow2 (ulp_exponent x)"
  by (cases "x = 0") (auto simp: round_real_def intro: exI [of _ 0])

lemma round_real_abs_le:
  assumes "x \<noteq> 0"
  shows "\<bar>round_real x\<bar> \<le> pow2 (ulp_exponent x + 53)"
proof (cases "0 < x")
  case True
  then show ?thesis
    using round_real_upper [of x] round_real_nonneg [of x] by simp
next
  case False
  then have "0 < - x" using assms by simp
  then show ?thesis
    using round_real_upper [of "- x"] round_real_nonneg [of "- x"] by (simp add: round_real_minus)
qed

lemma round_real_idem: "round_real (round_real x) = round_real x"
proof (cases "round_real x = 0")
  case False
  then have x: "x \<noteq> 0" by auto
  define r where "r = round_real x"
  define e where "e = ulp_exponent x"
  obtain n where n: "r = of_int n * pow2 e"
    using round_real_grid [of x] unfolding r_def e_def by blast
  have le: "\<bar>r\<bar> \<le> pow2 (e + 53)"
    unfolding r_def e_def by (rule round_real_abs_le [OF x])
  have r0: "r \<noteq> 0" using False by (simp add: r_def)
  show ?thesis
  proof (cases "\<bar>r\<bar> = pow2 (e + 53)")
    case True
    then have "\<lfloor>log 2 \<bar>r\<bar>\<rfloor> = e + 53"
      by (intro floor_log2_eq) simp_all
    moreover have "- 1074 \<le> e" unfolding e_def by (rule ulp_exponent_ge)
    ultimately have ue: "ulp_exponent r = e + 1"
      by (simp add: ulp_exponent_def)
    have p: "pow2 (e + 53) = 2 ^ 52 * pow2 (e + 1)"
      using pow2_add [of 52 "e + 1"] by (simp add: pow2_52 ac_simps)
    have "r = pow2 (e + 53) \<or> r = - pow2 (e + 53)" using True by linarith
    then have "r = of_int (2 ^ 52) * pow2 (e + 1) \<or> r = of_int (- (2 ^ 52)) * pow2 (e + 1)"
      unfolding p by simp
    then have "round_real r = r"
    proof
      assume "r = of_int (2 ^ 52) * pow2 (e + 1)"
      then show ?thesis using ue by (intro round_real_fixed [of r "2 ^ 52" "e + 1"]) simp_all
    next
      assume "r = of_int (- (2 ^ 52)) * pow2 (e + 1)"
      then show ?thesis using ue by (intro round_real_fixed [of r "- (2 ^ 52)" "e + 1"]) simp_all
    qed
    then show ?thesis by (simp add: r_def)
  next
    case False
    with le have "\<bar>r\<bar> < pow2 (e + 53)" by simp
    moreover have "pow2 \<lfloor>log 2 \<bar>r\<bar>\<rfloor> \<le> \<bar>r\<bar>" by (rule floor_log2_bounds [OF r0])
    ultimately have "pow2 \<lfloor>log 2 \<bar>r\<bar>\<rfloor> < pow2 (e + 53)" by linarith
    then have "\<lfloor>log 2 \<bar>r\<bar>\<rfloor> \<le> e + 52" by simp
    moreover have "- 1074 \<le> e" unfolding e_def by (rule ulp_exponent_ge)
    ultimately have "ulp_exponent r \<le> e" by (simp add: ulp_exponent_def)
    then have "round_real r = r" using n by (intro round_real_fixed) simp_all
    then show ?thesis by (simp add: r_def)
  qed
qed simp


text \<open>Scaling by a power of two commutes with rounding inside the normal range.\<close>

lemma floor_log2_scale:
  assumes "x \<noteq> 0"
  shows "\<lfloor>log 2 \<bar>x * pow2 k\<bar>\<rfloor> = \<lfloor>log 2 \<bar>x\<bar>\<rfloor> + k"
proof (rule floor_log2_eq)
  have "pow2 (\<lfloor>log 2 \<bar>x\<bar>\<rfloor> + k) = pow2 \<lfloor>log 2 \<bar>x\<bar>\<rfloor> * pow2 k" by (rule pow2_add)
  also have "\<dots> \<le> \<bar>x\<bar> * pow2 k"
    using floor_log2_bounds(1) [OF assms] by (intro mult_right_mono) simp_all
  finally show "pow2 (\<lfloor>log 2 \<bar>x\<bar>\<rfloor> + k) \<le> \<bar>x * pow2 k\<bar>" by (simp add: abs_mult)
  have "\<bar>x\<bar> * pow2 k < pow2 (\<lfloor>log 2 \<bar>x\<bar>\<rfloor> + 1) * pow2 k"
    using floor_log2_bounds(2) [OF assms] by (intro mult_strict_right_mono) simp_all
  also have "\<dots> = pow2 (\<lfloor>log 2 \<bar>x\<bar>\<rfloor> + k + 1)" by (simp flip: pow2_add add: ac_simps)
  finally show "\<bar>x * pow2 k\<bar> < pow2 (\<lfloor>log 2 \<bar>x\<bar>\<rfloor> + k + 1)" by (simp add: abs_mult)
qed

lemma round_real_scale:
  assumes "- 1022 \<le> \<lfloor>log 2 \<bar>x\<bar>\<rfloor>" and "- 1022 \<le> \<lfloor>log 2 \<bar>x\<bar>\<rfloor> + k"
  shows "round_real (x * pow2 k) = round_real x * pow2 k"
proof (cases "x = 0")
  case False
  have ue: "ulp_exponent (x * pow2 k) = ulp_exponent x + k"
    using assms by (simp add: ulp_exponent_def floor_log2_scale [OF False])
  have "x * pow2 k / pow2 (ulp_exponent x + k) = x / pow2 (ulp_exponent x)"
    by (simp add: pow2_add)
  then show ?thesis
    using False by (simp add: round_real_def ue) (simp add: pow2_add)
qed simp

lemma ulp_exponent_le:
  assumes "x \<noteq> 0" and "\<bar>x\<bar> < pow2 (k + 53)" and "- 1074 \<le> k"
  shows "ulp_exponent x \<le> k"
proof -
  have "pow2 \<lfloor>log 2 \<bar>x\<bar>\<rfloor> < pow2 (k + 53)"
    using floor_log2_bounds(1) [OF assms(1)] assms(2) by linarith
  then have "\<lfloor>log 2 \<bar>x\<bar>\<rfloor> \<le> k + 52" by simp
  then show ?thesis using assms(3) by (simp add: ulp_exponent_def)
qed

lemma round_real_abs_bound:
  assumes "\<bar>x\<bar> < pow2 k" and "- 1021 \<le> k"
  shows "\<bar>round_real x\<bar> \<le> pow2 k"
proof (cases "x = 0")
  case False
  have "ulp_exponent x \<le> k - 53"
    using assms by (intro ulp_exponent_le [OF False]) simp_all
  then have "pow2 (ulp_exponent x + 53) \<le> pow2 k" by simp
  then show ?thesis using round_real_abs_le [OF False] by linarith
qed simp

lemma overflow_Fin_iff:
  fixes B :: real
  shows "(if B \<le> \<bar>r\<bar> then (if 0 < r then PInf else NInf) else Fin r) = Fin x
           \<longleftrightarrow> r = x \<and> \<bar>x\<bar> < B"
  by auto

lemma round64_Fin_iff: "round64 x = Fin r \<longleftrightarrow> round_real x = r \<and> \<bar>r\<bar> < 2 ^ 1024"
  unfolding round64_def Let_def by (rule overflow_Fin_iff)

lemma round64_finite:
  assumes "\<bar>x\<bar> < 2 ^ 1023"
  shows "round64 x = Fin (round_real x)"
proof -
  have "\<bar>x\<bar> < pow2 1023" using assms by (simp add: pow2_def)
  then have "\<bar>round_real x\<bar> \<le> pow2 1023" by (intro round_real_abs_bound) simp_all
  also have "pow2 1023 < pow2 1024" by simp
  finally have "\<bar>round_real x\<bar> < 2 ^ 1024" by (simp add: pow2_def)
  then show ?thesis unfolding round64_Fin_iff by (simp only: simp_thms)
qed

lemma round64_zero [simp]: "round64 0 = Fin 0"
  unfolding round64_Fin_iff by simp



lemma is_float64_iff: "is_float64 x \<longleftrightarrow> round_real x = x \<and> \<bar>x\<bar> < 2 ^ 1024"
  unfolding is_float64_def by (rule round64_Fin_iff)

lemma is_float64_round_real:
  "\<bar>round_real x\<bar> < 2 ^ 1024 \<Longrightarrow> is_float64 (round_real x)"
  unfolding is_float64_iff by (simp only: round_real_idem simp_thms)

lemma round64_is_float64: "round64 x = Fin r \<Longrightarrow> is_float64 r"
  unfolding round64_Fin_iff using is_float64_round_real [of x] by blast

lemma is_float64_round64: "is_float64 x \<Longrightarrow> round64 x = Fin x"
  by (simp add: is_float64_def)

lemma is_float64_zero [simp]: "is_float64 0"
  by (simp add: is_float64_def)

lemma is_float64_of_int:
  assumes "\<bar>n\<bar> < 2 ^ 53"
  shows "is_float64 (of_int n)"
proof (cases "n = 0")
  case False
  have "\<bar>(of_int n :: real)\<bar> < of_int (2 ^ 53)"
    using assms by (metis of_int_abs of_int_less_iff)
  then have b: "\<bar>(of_int n :: real)\<bar> < 2 ^ 53" by simp
  then have "\<bar>(of_int n :: real)\<bar> < pow2 (0 + 53)" by (simp add: pow2_53)
  then have "ulp_exponent (of_int n) \<le> 0"
    using False by (intro ulp_exponent_le) simp_all
  then have "round_real (of_int n) = of_int n"
    by (intro round_real_fixed [of _ n 0]) simp_all
  moreover have "\<bar>(of_int n :: real)\<bar> < 2 ^ 1024"
    using b by (rule less_trans) simp
  ultimately show ?thesis unfolding is_float64_iff by (rule conjI)
qed simp

lemma is_float64_numeral:
  "numeral k < (2 ^ 53 :: int) \<Longrightarrow> is_float64 (numeral k)"
  using is_float64_of_int [of "numeral k"] by simp

lemma is_float64_one [simp]: "is_float64 1"
  using is_float64_of_int [of 1] by simp


section \<open>Float64 values and evaluation\<close>

lemma is_float64_minus [simp]: "is_float64 (- x) \<longleftrightarrow> is_float64 x"
  unfolding is_float64_iff round_real_minus abs_minus_cancel neg_equal_iff_equal ..


lemma round64_numeral [simp]:
  "numeral k < (2 ^ 53 :: int) \<Longrightarrow> round64 (numeral k) = Fin (numeral k)"
  using is_float64_numeral [of k] by (simp only: is_float64_def)

lemma round64_neg_numeral [simp]:
  assumes "numeral k < (2 ^ 53 :: int)"
  shows "round64 (- numeral k) = Fin (- numeral k)"
proof -
  have "is_float64 (- numeral k)"
    using is_float64_numeral [OF assms] by (simp only: is_float64_minus)
  then show ?thesis by (simp only: is_float64_def)
qed

lemma round64_one [simp]: "round64 1 = Fin 1"
  using is_float64_one by (simp only: is_float64_def)

lemma sqrt_100 [simp]: "sqrt 100 = 10"
  using real_sqrt_abs2 [of 10] by simp

lemma sqrt_4 [simp]: "sqrt 4 = 2"
  using real_sqrt_abs2 [of 2] by simp

lemma sqrt_9 [simp]: "sqrt 9 = 3"
  using real_sqrt_abs2 [of 3] by simp

lemma sqrt_16 [simp]: "sqrt 16 = 4"
  using real_sqrt_abs2 [of 4] by simp

lemmas f64_defs = f64_sqrt_def f64_add_def f64_sub_def f64_mul_def f64_div_def



text \<open>Rounded values lie on the grid of the subnormal numbers, so two that differ keep a
  difference that does not round to zero.\<close>

lemma round_real_on_grid: "\<exists>n. round_real x = of_int n * pow2 (- 1074)"
proof -
  obtain m where m: "round_real x = of_int m * pow2 (ulp_exponent x)"
    using round_real_grid by blast
  have "pow2 (ulp_exponent x) = pow2 (ulp_exponent x + 1074) * pow2 (- 1074)"
    by (simp flip: pow2_add)
  moreover have "pow2 (ulp_exponent x + 1074) = of_int (2 ^ nat (ulp_exponent x + 1074))"
    using ulp_exponent_ge [of x] by (simp add: pow2_def)
  ultimately have "round_real x = of_int (m * 2 ^ nat (ulp_exponent x + 1074)) * pow2 (- 1074)"
    using m by simp
  then show ?thesis ..
qed

lemma round_real_least: "round_real (pow2 (- 1074)) = pow2 (- 1074)"
proof -
  have "ulp_exponent (pow2 (- 1074)) \<le> - 1074"
    by (intro ulp_exponent_le) simp_all
  then show ?thesis
    by (intro round_real_fixed [of _ 1 "- 1074"]) simp_all
qed

lemma round_real_diff_pos:
  assumes "round_real x < round_real y"
  shows "0 < round_real (round_real y - round_real x)"
proof -
  obtain n where n: "round_real x = of_int n * pow2 (- 1074)"
    using round_real_on_grid by blast
  obtain m where m: "round_real y = of_int m * pow2 (- 1074)"
    using round_real_on_grid by blast
  have "of_int n * pow2 (- 1074) < of_int m * pow2 (- 1074)"
    using assms unfolding n m .
  then have "(of_int n :: real) < of_int m" by (simp add: mult_less_cancel_right)
  then have "n + 1 \<le> m" by simp
  then have "(of_int (n + 1) :: real) \<le> of_int m" by (simp only: of_int_le_iff)
  then have "(of_int n + 1) * pow2 (- 1074) \<le> of_int m * pow2 (- 1074)"
    by (intro mult_right_mono) simp_all
  then have "pow2 (- 1074) \<le> round_real y - round_real x"
    unfolding n m by (simp add: algebra_simps)
  then have "round_real (pow2 (- 1074)) \<le> round_real (round_real y - round_real x)"
    by (rule round_real_mono)
  then show ?thesis using round_real_least pow2_pos [of "- 1074"] by linarith
qed

section \<open>Marker sizes on finite input\<close>

lemma fold_np_minimum_Fin:
  "fold (\<lambda>y acc. np_minimum acc y) (map Fin xs) (Fin a) = Fin (fold min xs a)"
  by (induction xs arbitrary: a) (auto simp: np_minimum_def min_def)

lemma fold_np_maximum_Fin:
  "fold (\<lambda>y acc. np_maximum acc y) (map Fin xs) (Fin a) = Fin (fold max xs a)"
  by (induction xs arbitrary: a) (auto simp: np_maximum_def max_def)

lemma array_min_Fin: "xs \<noteq> [] \<Longrightarrow> array_min (map Fin xs) = Inr (Fin (Min (set xs)))"
  by (cases xs) (simp_all add: fold_np_minimum_Fin flip: Min.set_eq_fold)

lemma array_max_Fin: "xs \<noteq> [] \<Longrightarrow> array_max (map Fin xs) = Inr (Fin (Max (set xs)))"
  by (cases xs) (simp_all add: fold_np_maximum_Fin flip: Max.set_eq_fold)

text \<open>The float64 operations on finite arguments.\<close>

lemma sqrt_float_bound:
  assumes "0 \<le> r" and "is_float64 r"
  shows "sqrt r < 2 ^ 512"
proof -
  have "r < 2 ^ 1024" using assms unfolding is_float64_iff by linarith
  also have "\<dots> = (2 ^ 512)\<^sup>2" by (simp only: power_mult [symmetric]) simp
  finally show ?thesis by (intro real_less_lsqrt) simp_all
qed

lemma round_sqrt_bounds:
  assumes "0 \<le> r" and "is_float64 r"
  shows "0 \<le> round_real (sqrt r)" and "round_real (sqrt r) \<le> 2 ^ 512"
proof -
  show "0 \<le> round_real (sqrt r)" using assms(1) by (intro round_real_nonneg) simp
  have "\<bar>sqrt r\<bar> < pow2 512"
    using sqrt_float_bound [OF assms] assms(1) by (simp add: pow2_def)
  then have "\<bar>round_real (sqrt r)\<bar> \<le> pow2 512" by (intro round_real_abs_bound) simp_all
  then show "round_real (sqrt r) \<le> 2 ^ 512" by (simp add: pow2_def)
qed

lemma f64_sqrt_Fin:
  assumes "0 \<le> r" and "is_float64 r"
  shows "f64_sqrt (Fin r) = Fin (round_real (sqrt r))"
proof -
  have "sqrt r < 2 ^ 1023"
    using sqrt_float_bound [OF assms] by (rule less_trans) simp
  then have "\<bar>sqrt r\<bar> < 2 ^ 1023" using assms(1) by simp
  then have "round64 (sqrt r) = Fin (round_real (sqrt r))" by (rule round64_finite)
  then show ?thesis using assms(1) by (simp add: f64_sqrt_def)
qed

lemma round_sqrt_mono: "mono (\<lambda>r. round_real (sqrt r))"
  by (intro monoI round_real_mono) simp

lemma f64_sub_Fin:
  assumes "\<bar>x - y\<bar> < 2 ^ 1023"
  shows "f64_sub (Fin x) (Fin y) = Fin (round_real (x - y))"
  using round64_finite [OF assms] by (simp add: f64_sub_def np_sub_def)





text \<open>
  On a non-empty array of non-negative float64 areas the square roots are finite, and the
  least and the greatest of them are the roots of the least and the greatest area.
\<close>

lemma map_f64_sqrt_Fin:
  "\<forall>r\<in>set rs. 0 \<le> r \<and> is_float64 r \<Longrightarrow>
   map f64_sqrt (map Fin rs) = map Fin (map (\<lambda>r. round_real (sqrt r)) rs)"
  by (induction rs) (simp_all add: f64_sqrt_Fin)

lemma round_sqrt_Min:
  "rs \<noteq> [] \<Longrightarrow> Min ((\<lambda>r. round_real (sqrt r)) ` set rs) = round_real (sqrt (Min (set rs)))"
  by (rule mono_Min_commute [OF round_sqrt_mono, symmetric]) simp_all

lemma round_sqrt_Max:
  "rs \<noteq> [] \<Longrightarrow> Max ((\<lambda>r. round_real (sqrt r)) ` set rs) = round_real (sqrt (Max (set rs)))"
  by (rule mono_Max_commute [OF round_sqrt_mono, symmetric]) simp_all

lemma calculate_star_sizes_roots:
  assumes "rs \<noteq> []" and "\<forall>r\<in>set rs. 0 \<le> r \<and> is_float64 r"
  shows "calculate_star_sizes (map Fin rs) min_size max_size =
           Inr (map (\<lambda>r. f64_add min_size
                            (f64_mul (f64_div (f64_sub (Fin (round_real (sqrt r)))
                                                       (Fin (round_real (sqrt (Min (set rs))))))
                                              (f64_sub (Fin (round_real (sqrt (Max (set rs)))))
                                                       (Fin (round_real (sqrt (Min (set rs)))))))
                                     (f64_sub max_size min_size))) rs)"
proof -
  have ne: "map (\<lambda>r. round_real (sqrt r)) rs \<noteq> []" using assms(1) by simp
  show ?thesis
    unfolding calculate_star_sizes_def Let_def map_f64_sqrt_Fin [OF assms(2)]
      array_min_Fin [OF ne] array_max_Fin [OF ne]
    by (simp add: comp_def round_sqrt_Min [OF assms(1)] round_sqrt_Max [OF assms(1)])
qed

lemma Min_Max_float:
  assumes "rs \<noteq> []" and "\<forall>r\<in>set rs. 0 \<le> r \<and> is_float64 r"
  shows "0 \<le> Min (set rs) \<and> is_float64 (Min (set rs))"
    and "0 \<le> Max (set rs) \<and> is_float64 (Max (set rs))"
proof -
  have "Min (set rs) \<in> set rs" "Max (set rs) \<in> set rs"
    using assms(1) by (simp_all add: Min_in Max_in)
  then show "0 \<le> Min (set rs) \<and> is_float64 (Min (set rs))"
    and "0 \<le> Max (set rs) \<and> is_float64 (Max (set rs))"
    using assms(2) by blast+
qed


text \<open>The real-valued form of one size, and what the roots of the array satisfy.\<close>

lemma roots_between:
  assumes "rs \<noteq> []" and "\<forall>r\<in>set rs. 0 \<le> r \<and> is_float64 r" and "r \<in> set rs"
  shows "round_real (sqrt (Min (set rs))) \<le> round_real (sqrt r)"
    and "round_real (sqrt r) \<le> round_real (sqrt (Max (set rs)))"
    and "0 \<le> round_real (sqrt (Min (set rs)))"
    and "round_real (sqrt (Max (set rs))) \<le> 2 ^ 512"
proof -
  show "round_real (sqrt (Min (set rs))) \<le> round_real (sqrt r)"
    using assms(3) by (intro round_real_mono) simp
  show "round_real (sqrt r) \<le> round_real (sqrt (Max (set rs)))"
    using assms(3) by (intro round_real_mono) simp
  show "0 \<le> round_real (sqrt (Min (set rs)))"
    using Min_Max_float(1) [OF assms(1,2)] by (intro round_sqrt_bounds(1)) simp_all
  show "round_real (sqrt (Max (set rs))) \<le> 2 ^ 512"
    using Min_Max_float(2) [OF assms(1,2)] by (intro round_sqrt_bounds(2)) simp_all
qed

lemma roots_differ:
  assumes "rs \<noteq> []" and "\<forall>r\<in>set rs. 0 \<le> r \<and> is_float64 r"
    and "a \<in> set rs" and "b \<in> set rs" and "f64_sqrt (Fin a) \<noteq> f64_sqrt (Fin b)"
  shows "0 < round_real (round_real (sqrt (Max (set rs))) - round_real (sqrt (Min (set rs))))"
proof -
  have "round_real (sqrt a) \<noteq> round_real (sqrt b)"
    using assms(2-5) by (simp add: f64_sqrt_Fin)
  moreover note roots_between(1,2) [OF assms(1,2,3)] roots_between(1,2) [OF assms(1,2,4)]
  ultimately have "round_real (sqrt (Min (set rs))) < round_real (sqrt (Max (set rs)))"
    by linarith
  then show ?thesis by (rule round_real_diff_pos)
qed

section \<open>Claims about the marker sizes\<close>






text \<open>
  Claim C2. On areas that are all equal the claim expects \<open>min_size\<close> for every element.
  The source divides by \<open>max_sqrt - min_sqrt\<close> without a test, so at \<open>[5, 5, 5]\<close> with the
  sizes 80 to 1000 each element is \<open>0 / 0\<close>, which numpy answers with \<open>nan\<close>: the result
  is three times \<open>nan\<close>, not three times 80.
\<close>

theorem C2_degenerate:
  "calculate_star_sizes [Fin 5, Fin 5, Fin 5] (Fin 80) (Fin 1000) = Inr [NaN, NaN, NaN]"
proof -
  have "f64_sqrt (Fin 5) = Fin (round_real (sqrt 5))"
    by (rule f64_sqrt_Fin) (simp_all add: is_float64_numeral)
  then show ?thesis
    unfolding calculate_star_sizes_def Let_def list.map
    by (simp add: np_minimum_def np_maximum_def f64_sub_def f64_div_def f64_mul_def
        f64_add_def np_sub_def signed_inf_def)
qed

text \<open>
  Claim C3, as stated, fails: a negative area and \<open>min_size \<ge> max_size\<close> do not raise.
  With the areas \<open>-1\<close> and \<open>4\<close> the function returns two \<open>nan\<close>; with the sizes 100 down to
  10 it returns the interpolation from 100 to 10.
\<close>

theorem C3_counterexample:
  "calculate_star_sizes [Fin (- 1), Fin 4] (Fin 80) (Fin 1000) = Inr [NaN, NaN]
   \<and> calculate_star_sizes [Fin 1, Fin 100] (Fin 100) (Fin 10) = Inr [Fin 100, Fin 10]"
  by (simp add: calculate_star_sizes_def f64_defs np_minimum_def np_maximum_def np_sub_def
      signed_inf_def)

text \<open>
  Claim C3, amended. \<open>calculate_star_sizes\<close> raises (the \<open>ValueError\<close> of the reduction
  over an empty array) when the array of areas is empty, and only then: on every non-empty
  array, whatever the areas and the two sizes, it returns an array of the same length.
\<close>

theorem C3_only_empty_fails:
  "(areas = [] \<longrightarrow> calculate_star_sizes areas min_size max_size = Inl ValueError)
   \<and> (areas \<noteq> [] \<longrightarrow>
        (\<exists>sizes. calculate_star_sizes areas min_size max_size = Inr sizes
                  \<and> length sizes = length areas))"
  by (cases areas) (simp_all add: calculate_star_sizes_def)

text \<open>Both cases of the amended C3: the empty array, and a negative area with swapped sizes.\<close>

theorem C3_only_empty_fails_witness:
  "calculate_star_sizes [] (Fin 80) (Fin 1000) = Inl ValueError
   \<and> (\<exists>sizes. calculate_star_sizes [Fin (- 1), Fin 4] (Fin 1000) (Fin 80) = Inr sizes
                \<and> length sizes = length [Fin (- 1), Fin 4])"
  using C3_only_empty_fails [of "[]" "Fin 80" "Fin 1000"]
    C3_only_empty_fails [of "[Fin (- 1), Fin 4]" "Fin 1000" "Fin 80"]
  by simp

text \<open>Evaluation at a value that lies exactly between two neighbours of the grid.\<close>

lemma round_half_even_tie:
  "round_half_even (of_int f + 1 / 2) = (if even f then f else f + 1)"
proof -
  have "\<lfloor>(of_int f :: real) + 1 / 2\<rfloor> = f" by (intro floor_unique) simp_all
  then show ?thesis by (simp add: round_half_even_def)
qed

lemma round64_binade:
  assumes "pow2 E \<le> \<bar>x\<bar>" and "\<bar>x\<bar> < pow2 (E + 1)" and "- 1022 \<le> E" and "E \<le> 1022"
  shows "round64 x = Fin (of_int (round_half_even (x / pow2 (E - 52))) * pow2 (E - 52))"
proof -
  have "0 < \<bar>x\<bar>" using assms(1) pow2_pos [of E] by linarith
  then have x: "x \<noteq> 0" by simp
  have "\<lfloor>log 2 \<bar>x\<bar>\<rfloor> = E" using assms(1,2) by (rule floor_log2_eq)
  then have "ulp_exponent x = E - 52" using assms(3) by (simp add: ulp_exponent_def)
  then have r: "round_real x = of_int (round_half_even (x / pow2 (E - 52))) * pow2 (E - 52)"
    using x by (simp add: round_real_def)
  have "pow2 (E + 1) \<le> pow2 1023" using assms(4) by simp
  then have "\<bar>x\<bar> < pow2 1023" using assms(2) by linarith
  then have "\<bar>x\<bar> < 2 ^ 1023" by (simp add: pow2_def)
  then have "round64 x = Fin (round_real x)" by (rule round64_finite)
  then show ?thesis by (simp only: r)
qed

lemma round64_eval_tie:
  assumes "pow2 E \<le> \<bar>x\<bar>" and "\<bar>x\<bar> < pow2 (E + 1)" and "- 1022 \<le> E" and "E \<le> 1022"
    and "x = (of_int f + 1 / 2) * pow2 (E - 52)"
  shows "round64 x = Fin (of_int (if even f then f else f + 1) * pow2 (E - 52))"
proof -
  have "x / pow2 (E - 52) = of_int f + 1 / 2" using assms(5) by simp
  then show ?thesis
    using round64_binade [OF assms(1-4)] by (simp only: round_half_even_tie)
qed

text \<open>
  The least area gets exactly \<open>min_size\<close>, and the greatest gets the float64 value of
  \<open>min_size + (max_size - min_size)\<close>.
\<close>

lemma endpoints_f64:
  assumes "rs \<noteq> []" and "\<forall>r\<in>set rs. 0 \<le> r \<and> is_float64 r"
    and "\<exists>a\<in>set rs. \<exists>b\<in>set rs. f64_sqrt (Fin a) \<noteq> f64_sqrt (Fin b)"
    and "is_float64 lo" and "\<bar>hi - lo\<bar> < 2 ^ 1023"
  shows "\<exists>sizes. calculate_star_sizes (map Fin rs) (Fin lo) (Fin hi) = Inr sizes
           \<and> length sizes = length rs
           \<and> (\<forall>i<length rs.
                 (rs ! i = Min (set rs) \<longrightarrow> sizes ! i = Fin lo)
                 \<and> (rs ! i = Max (set rs) \<longrightarrow>
                      sizes ! i = f64_add (Fin lo) (f64_sub (Fin hi) (Fin lo))))"
proof -
  define m where "m = round_real (sqrt (Min (set rs)))"
  define M where "M = round_real (sqrt (Max (set rs)))"
  define d where "d = round_real (M - m)"
  define w where "w = round_real (hi - lo)"
  define size_of where
    "size_of = (\<lambda>r. f64_add (Fin lo)
                       (f64_mul (f64_div (f64_sub (Fin (round_real (sqrt r))) (Fin m))
                                         (f64_sub (Fin M) (Fin m)))
                                (f64_sub (Fin hi) (Fin lo))))"
  have d: "0 < d"
    using assms(3) roots_differ [OF assms(1,2)] unfolding d_def M_def m_def by blast
  have mM: "0 \<le> m" "M \<le> 2 ^ 512"
    using roots_between(3,4) [OF assms(1,2)] assms(1) unfolding m_def M_def
    by (metis hd_in_set)+
  have "m \<le> M"
    unfolding m_def M_def using assms(1) by (intro round_real_mono) simp
  moreover have "(2 ^ 512 :: real) < 2 ^ 1023" by simp
  ultimately have "\<bar>M - m\<bar> < 2 ^ 1023" using mM by linarith
  then have subd: "f64_sub (Fin M) (Fin m) = Fin d" unfolding d_def by (rule f64_sub_Fin)
  have subw: "f64_sub (Fin hi) (Fin lo) = Fin w" unfolding w_def using assms(5) by (rule f64_sub_Fin)
  have wf: "round64 w = Fin w"
    using subw round64_is_float64 [of "hi - lo" w]
    by (simp add: f64_sub_def np_sub_def is_float64_def)
  have lo: "round64 lo = Fin lo" using assms(4) by (simp only: is_float64_def)
  have low: "size_of (Min (set rs)) = Fin lo"
    unfolding size_of_def m_def [symmetric] subd subw using d
    by (simp add: f64_sub_def f64_div_def f64_mul_def f64_add_def np_sub_def lo)
  have high: "size_of (Max (set rs)) = f64_add (Fin lo) (f64_sub (Fin hi) (Fin lo))"
    unfolding size_of_def M_def [symmetric] subd subw using d
    by (simp add: f64_div_def f64_mul_def f64_add_def wf)
  have call: "calculate_star_sizes (map Fin rs) (Fin lo) (Fin hi) = Inr (map size_of rs)"
    unfolding calculate_star_sizes_roots [OF assms(1,2)] size_of_def m_def M_def ..
  show ?thesis
    unfolding call using low high by simp
qed

lemma area_km2_Min: "Min (set area_km2) = 71"
  by (simp add: area_km2_def)

lemma area_km2_Max: "Max (set area_km2) = 1156"
  by (simp add: area_km2_def)


lemma area_km2_float: "\<forall>r\<in>set area_km2. 0 \<le> r \<and> is_float64 r"
  by (simp add: area_km2_def is_float64_numeral)

lemma sqrt_1156 [simp]: "sqrt 1156 = 34"
  using real_sqrt_abs2 [of 34] by simp

lemma area_km2_roots_differ: "f64_sqrt (Fin 71) \<noteq> f64_sqrt (Fin 1156)"
proof -
  have "sqrt 71 \<le> 9" by (rule real_le_lsqrt) simp_all
  then have "round_real (sqrt 71) \<le> round_real 9" by (rule round_real_mono)
  moreover have "round_real 9 = 9"
    using is_float64_numeral [of "num.Bit1 (num.Bit0 (num.Bit0 num.One))"]
    by (simp add: is_float64_iff)
  ultimately have "round_real (sqrt 71) \<le> 9" by simp
  moreover have "f64_sqrt (Fin 71) = Fin (round_real (sqrt 71))"
    by (rule f64_sqrt_Fin) (simp_all add: is_float64_numeral)
  moreover have "f64_sqrt (Fin 1156) = Fin 34" by (simp add: f64_sqrt_def)
  ultimately show ?thesis by auto
qed

section \<open>Claims about the boundary file\<close>

text \<open>
  Claim C9. When the boundary file does not exist, \<open>fetch_vietnam_boundary\<close> raises its
  exception; whenever it fails, it fails with that exception; and when it returns a frame,
  the file exists, \<open>read_file\<close> has loaded it, and the frame is the loaded one with every
  geometry simplified: there is no default or substitute geometry.
\<close>

theorem C9_missing_boundary:
  "(\<not> exists gadm_file \<longrightarrow>
      fetch_vietnam_boundary exists read_file simplify gadm_file = Inl BoundaryException)
   \<and> (\<forall>e. fetch_vietnam_boundary exists read_file simplify gadm_file = Inl e \<longrightarrow>
            e = BoundaryException)
   \<and> (\<forall>gdf. fetch_vietnam_boundary exists read_file simplify gadm_file = Inr gdf \<longrightarrow>
            exists gadm_file
            \<and> (\<exists>loaded. read_file gadm_file = Inr loaded \<and> gdf = map simplify loaded))"
proof (intro conjI allI impI)
  assume "\<not> exists gadm_file"
  then show "fetch_vietnam_boundary exists read_file simplify gadm_file = Inl BoundaryException"
    by (simp add: fetch_vietnam_boundary_def)
next
  fix e
  assume "fetch_vietnam_boundary exists read_file simplify gadm_file = Inl e"
  then show "e = BoundaryException"
    by (simp add: fetch_vietnam_boundary_def split: if_splits sum.splits)
next
  fix gdf
  assume r: "fetch_vietnam_boundary exists read_file simplify gadm_file = Inr gdf"
  then show "exists gadm_file"
    by (simp add: fetch_vietnam_boundary_def split: if_splits)
  from r have "load_boundary read_file simplify gadm_file = Inr gdf"
    by (simp add: fetch_vietnam_boundary_def split: if_splits sum.splits)
  then show "\<exists>loaded. read_file gadm_file = Inr loaded \<and> gdf = map simplify loaded"
    by (cases "read_file gadm_file")
      (auto simp: load_boundary_def Let_def split: sum.splits if_splits)
qed

text \<open>A missing file, a file that loads, and a file that exists but cannot be read.\<close>

theorem C9_missing_boundary_witness:
  "fetch_vietnam_boundary (\<lambda>p. False) (\<lambda>p. Inr [Polygon [(0, 0), (1, 0), (0, 1), (0, 0)]]) id
      ''gadm41_VNM_0.json'' = Inl BoundaryException
   \<and> fetch_vietnam_boundary (\<lambda>p. True) (\<lambda>p. Inr [Polygon [(0, 0), (1, 0), (0, 1), (0, 0)]]) id
      ''gadm41_VNM_0.json'' = Inr [Polygon [(0, 0), (1, 0), (0, 1), (0, 0)]]
   \<and> fetch_vietnam_boundary (\<lambda>p. True) (\<lambda>p. Inl ReadError) id
      ''gadm41_VNM_0.json'' = Inl BoundaryException"
proof -
  have absent: "\<not> (\<lambda>p :: string. False) ''gadm41_VNM_0.json''" by simp
  have 1: "fetch_vietnam_boundary (\<lambda>p. False) (\<lambda>p. Inr [Polygon [(0, 0), (1, 0), (0, 1), (0, 0)]]) id
      ''gadm41_VNM_0.json'' = Inl BoundaryException"
    using absent
    by (rule C9_missing_boundary [of "\<lambda>p. False" "''gadm41_VNM_0.json''"
        "\<lambda>p. Inr [Polygon [(0, 0), (1, 0), (0, 1), (0, 0)]]" id, THEN conjunct1, rule_format])
  have 2: "fetch_vietnam_boundary (\<lambda>p. True) (\<lambda>p. Inr [Polygon [(0, 0), (1, 0), (0, 1), (0, 0)]]) id
      ''gadm41_VNM_0.json'' = Inr [Polygon [(0, 0), (1, 0), (0, 1), (0, 0)]]"
    by (simp add: fetch_vietnam_boundary_def load_boundary_def)
  have 3: "fetch_vietnam_boundary (\<lambda>p. True) (\<lambda>p. Inl ReadError) id
      ''gadm41_VNM_0.json'' = Inl BoundaryException"
    by (simp add: fetch_vietnam_boundary_def load_boundary_def)
  show ?thesis using 1 2 3 by simp
qed

end
